theory Spec2Isabelle
  imports Complex_Main
begin

section \<open>Exit checks of jug (\<^verbatim>\<open>jug/hooks/exit_checks.py\<close>)\<close>

text \<open>
  The module installs callbacks ("hooks") that end the process when a condition holds:
  a marker file exists, a caller-supplied predicate is true, a number of tasks has been
  executed, a deadline has passed. \<^verbatim>\<open>exit_env_vars\<close> installs them from environment
  variables.

  The embedding is shallow. A closure is a constructor holding what the closure captured;
  the hook registry, the clock and the filesystem are passed explicitly; an exception is
  a value of the result type; \<^verbatim>\<open>sys.exit(0)\<close> is the exception \<^verbatim>\<open>SystemExit(0)\<close>, as
  in Python.
\<close>

subsection \<open>Python values, exceptions, results\<close>

text \<open>What a caller-supplied function may return, with Python's truth value of each.\<close>

datatype pyval = PyNone | PyBool bool | PyInt int | PyStr string

fun truthy :: "pyval \<Rightarrow> bool" where
  "truthy PyNone = False"
| "truthy (PyBool b) = b"
| "truthy (PyInt i) = (i \<noteq> 0)"
| "truthy (PyStr s) = (s \<noteq> [])"

text \<open>
  \<open>ValueError\<close> is what \<^verbatim>\<open>int\<close> raises on a malformed string, \<open>TypeError\<close> what a call
  with the wrong number of arguments raises, \<open>OverflowError\<close> what the conversion of an
  integer too large for a float raises; \<open>UserError\<close> stands for any exception of the
  caller's own.
\<close>

datatype exn = SystemExit int | ValueError | TypeError | OverflowError | UserError string

datatype 'a result = Return 'a | Raise exn

text \<open>\<^verbatim>\<open>from sys import exit\<close>: \<^verbatim>\<open>exit(status)\<close> raises \<^verbatim>\<open>SystemExit(status)\<close>.\<close>

definition exit :: "int \<Rightarrow> 'a result" where
  "exit status = Raise (SystemExit status)"

subsection \<open>The world outside: clock and filesystem\<close>

text \<open>
  \<open>clock\<close> is the number \<^verbatim>\<open>time.time()\<close> returns (seconds since the epoch; a finite float,
  given by the real number it denotes), \<open>existing\<close> the set of paths for which
  \<^verbatim>\<open>os.path.exists\<close> is true.
\<close>

record world =
  clock :: real
  existing :: "string set"

definition path_exists :: "world \<Rightarrow> string \<Rightarrow> bool" where
  "path_exists w fname = (fname \<in> existing w)"

subsection \<open>Floating-point numbers\<close>

text \<open>
  A Python float is an IEEE 754 double: a finite value (given by the real number it
  denotes), an infinity, or not-a-number. The two zeros are one value here; they compare
  equal, and nothing in this module tells them apart.
\<close>

datatype pyfloat = Finite real | PInf | MInf | NaN

text \<open>Rounding to the nearest integer, ties to the even one.\<close>

definition round_half_even :: "real \<Rightarrow> int" where
  "round_half_even q =
     (let f = \<lfloor>q\<rfloor>
      in if q - of_int f < 1 / 2 then f
         else if q - of_int f > 1 / 2 then f + 1
         else if even f then f else f + 1)"

text \<open>
  The double nearest to a real number, ties to the even significand, before the test for
  overflow. A double has 53 bits of significand. \<open>exponent x\<close> is the exponent of the leading
  bit of \<open>x\<close>, not below \<open>-1022\<close> (below it the numbers are subnormal and their spacing stays
  the same); \<open>ulp x\<close> is the spacing of the doubles around \<open>x\<close>.
\<close>

definition exponent :: "real \<Rightarrow> int" where
  "exponent x = max \<lfloor>log 2 \<bar>x\<bar>\<rfloor> (- 1022)"

definition ulp :: "real \<Rightarrow> real" where
  "ulp x = 2 powr of_int (exponent x - 52)"

definition round_value :: "real \<Rightarrow> real" where
  "round_value x =
     (if x = 0 then 0 else of_int (round_half_even (x / ulp x)) * ulp x)"

text \<open>The result of an operation whose exact value is \<open>x\<close>: rounded, infinite on overflow.\<close>

definition ieee_round :: "real \<Rightarrow> pyfloat" where
  "ieee_round x =
     (let y = round_value x
      in if y \<ge> 2 ^ 1024 then PInf else if y \<le> - (2 ^ 1024) then MInf else Finite y)"

text \<open>A real number is a double when rounding leaves it as it is.\<close>

definition is_double :: "real \<Rightarrow> bool" where
  "is_double x = (ieee_round x = Finite x)"

text \<open>\<^verbatim>\<open>a + b\<close>, \<^verbatim>\<open>a * b\<close> and \<^verbatim>\<open>a >= b\<close> on floats; none of them raises.\<close>

fun fadd :: "pyfloat \<Rightarrow> pyfloat \<Rightarrow> pyfloat" where
  "fadd (Finite x) (Finite y) = ieee_round (x + y)"
| "fadd NaN b = NaN"
| "fadd a NaN = NaN"
| "fadd PInf MInf = NaN"
| "fadd MInf PInf = NaN"
| "fadd PInf b = PInf"
| "fadd a PInf = PInf"
| "fadd MInf b = MInf"
| "fadd a MInf = MInf"

fun fmul :: "pyfloat \<Rightarrow> pyfloat \<Rightarrow> pyfloat" where
  "fmul (Finite x) (Finite y) = ieee_round (x * y)"
| "fmul NaN b = NaN"
| "fmul a NaN = NaN"
| "fmul PInf (Finite y) = (if y = 0 then NaN else if y > 0 then PInf else MInf)"
| "fmul MInf (Finite y) = (if y = 0 then NaN else if y > 0 then MInf else PInf)"
| "fmul (Finite x) PInf = (if x = 0 then NaN else if x > 0 then PInf else MInf)"
| "fmul (Finite x) MInf = (if x = 0 then NaN else if x > 0 then MInf else PInf)"
| "fmul PInf PInf = PInf"
| "fmul MInf MInf = PInf"
| "fmul PInf MInf = MInf"
| "fmul MInf PInf = MInf"

fun fge :: "pyfloat \<Rightarrow> pyfloat \<Rightarrow> bool" where
  "fge (Finite x) (Finite y) = (x \<ge> y)"
| "fge NaN b = False"
| "fge a NaN = False"
| "fge PInf b = True"
| "fge a MInf = True"
| "fge (Finite x) PInf = False"
| "fge MInf b = False"

text \<open>
  The conversion of an integer to a float, as \<^verbatim>\<open>float + int\<close> and \<^verbatim>\<open>int * float\<close> make it:
  the nearest double, or \<open>OverflowError\<close> when that is out of range.
\<close>

definition float_of_int :: "int \<Rightarrow> pyfloat result" where
  "float_of_int i =
     (case ieee_round (of_int i) of
        Finite x \<Rightarrow> Return (Finite x)
      | PInf \<Rightarrow> Raise OverflowError
      | MInf \<Rightarrow> Raise OverflowError
      | NaN \<Rightarrow> Raise OverflowError)"

text \<open>\<^verbatim>\<open>Number = typing.Union[int, float]\<close>.\<close>

datatype number = Integer int | Floating pyfloat

text \<open>\<^verbatim>\<open>d + x\<close> for a float \<open>d\<close>, and \<^verbatim>\<open>k * x\<close> for an integer literal \<open>k\<close>.\<close>

fun float_plus :: "pyfloat \<Rightarrow> number \<Rightarrow> pyfloat result" where
  "float_plus d (Integer i) =
     (case float_of_int i of Raise e \<Rightarrow> Raise e | Return f \<Rightarrow> Return (fadd d f))"
| "float_plus d (Floating f) = Return (fadd d f)"

fun int_times :: "int \<Rightarrow> number \<Rightarrow> number result" where
  "int_times k (Integer i) = Return (Integer (k * i))"
| "int_times k (Floating f) =
     (case float_of_int k of Raise e \<Rightarrow> Raise e | Return kf \<Rightarrow> Return (Floating (fmul kf f)))"

text \<open>\<^verbatim>\<open>time()\<close>: the clock, as a float.\<close>

definition time_now :: "world \<Rightarrow> pyfloat" where
  "time_now w = Finite (clock w)"

subsection \<open>Callables and closures\<close>

text \<open>
  A caller-supplied function is given by its behaviour on a list of positional arguments
  (tasks), in a world: it returns a value or raises. A function of no argument raises
  \<open>TypeError\<close> on a non-empty list, and so on.

  Inside \<^verbatim>\<open>exit_when_true\<close> the variable \<^verbatim>\<open>f\<close> is a cell shared by the function body and the
  nested functions. It holds either the function supplied by the caller, or, after
  \<^verbatim>\<open>f = lambda t : f()\<close>, that lambda: \<open>Discard_arg\<close>. The lambda's body reads \<^verbatim>\<open>f\<close> from
  the cell when it is called (Python closures bind late), so \<open>call\<close> takes the content of
  the cell as its first argument.

  \<open>call\<close> returns the result together with the trace of the calls made to a supplied
  function: the argument list of each.
\<close>

type_synonym 't pyfun = "world \<Rightarrow> 't list \<Rightarrow> pyval result"

datatype 't callable = Supplied "'t pyfun" | Discard_arg

fun call :: "world \<Rightarrow> 't callable \<Rightarrow> 't callable \<Rightarrow> 't list \<Rightarrow> pyval result \<times> 't list list" where
  "call w cell (Supplied g) args = (g w args, [args])"
| "call w cell Discard_arg [t] = call w cell cell []"
| "call w cell Discard_arg args = (Raise TypeError, [])"

text \<open>
  The four callbacks, each with what it captured: \<^verbatim>\<open>check_file\<close> the path, \<^verbatim>\<open>exit_when\<close>
  the cell \<^verbatim>\<open>f\<close>, \<^verbatim>\<open>exit_after\<close> the threshold \<^verbatim>\<open>n\<close> and the counter \<^verbatim>\<open>executed[0]\<close>,
  \<^verbatim>\<open>check_time\<close> the deadline.
\<close>

datatype 't hook =
    Check_file string
  | Exit_when "'t callable"
  | Exit_after int int
  | Check_time pyfloat

definition check_file :: "string \<Rightarrow> world \<Rightarrow> 't \<Rightarrow> unit result" where
  "check_file fname w t = (if path_exists w fname then exit 0 else Return ())"

definition exit_when :: "'t callable \<Rightarrow> world \<Rightarrow> 't \<Rightarrow> unit result \<times> 't list list" where
  "exit_when f w t =
     (case call w f f [t] of
        (Return v, calls) \<Rightarrow> (if truthy v then exit 0 else Return (), calls)
      | (Raise e, calls) \<Rightarrow> (Raise e, calls))"

text \<open>\<^verbatim>\<open>exit_after\<close> returns the new value of the counter with its result.\<close>

definition exit_after :: "int \<Rightarrow> int \<Rightarrow> 't \<Rightarrow> unit result \<times> int" where
  "exit_after n executed t =
     (let executed = executed + 1
      in (if executed \<ge> n then exit 0 else Return (), executed))"

definition check_time :: "pyfloat \<Rightarrow> world \<Rightarrow> 't \<Rightarrow> unit result" where
  "check_time deadline w t = (if fge (time_now w) deadline then exit 0 else Return ())"

text \<open>Calling a registered callback with a task: its result and the closure afterwards.\<close>

fun run_hook :: "world \<Rightarrow> 't hook \<Rightarrow> 't \<Rightarrow> unit result \<times> 't hook" where
  "run_hook w (Check_file fname) t = (check_file fname w t, Check_file fname)"
| "run_hook w (Exit_when f) t = (fst (exit_when f w t), Exit_when f)"
| "run_hook w (Exit_after n executed) t =
     (case exit_after n executed t of (r, executed') \<Rightarrow> (r, Exit_after n executed'))"
| "run_hook w (Check_time deadline) t = (check_time deadline w t, Check_time deadline)"

subsection \<open>The hook registry\<close>

type_synonym 't registry = "(string \<times> 't hook) list"

text \<open>
  Modelled from the spec: \<^verbatim>\<open>jug.hooks.register_hook\<close> is not among the sources. The
  registry keeps the (event name, callback) pairs in the order of registration and never
  fails.
\<close>

definition register_hook :: "string \<Rightarrow> 't hook \<Rightarrow> 't registry \<Rightarrow> 't registry" where
  "register_hook event_name callback reg = reg @ [(event_name, callback)]"

text \<open>
  Modelled from the spec: the scheduler's dispatch of an event is not among the sources.
  The callbacks registered under the event's name are called in the order of
  registration, each with the task; an exception of a callback goes to the scheduler, so
  the callbacks after it are not called. The registry afterwards holds the closures as
  the calls left them.
\<close>

fun fire :: "string \<Rightarrow> world \<Rightarrow> 't \<Rightarrow> 't registry \<Rightarrow> unit result \<times> 't registry" where
  "fire ev w t [] = (Return (), [])"
| "fire ev w t ((name, h) # reg) =
     (if name = ev then
        (case run_hook w h t of
           (Return u, h') \<Rightarrow> (case fire ev w t reg of (r, reg') \<Rightarrow> (r, (name, h') # reg'))
         | (Raise e, h') \<Rightarrow> (Raise e, (name, h') # reg))
      else (case fire ev w t reg of (r, reg') \<Rightarrow> (r, (name, h) # reg')))"

text \<open>
  Modelled from the spec: the scheduler runs the tasks one at a time and fires the event
  for each. A sequence of firings of one event, each in its world and with its task: the
  result of every firing, and the registry at the end. (A process that exits is gone; the results
  after the first exit say what the callbacks would do if the scheduler went on.)
\<close>

fun fire_all :: "string \<Rightarrow> (world \<times> 't) list \<Rightarrow> 't registry \<Rightarrow> unit result list \<times> 't registry" where
  "fire_all ev [] reg = ([], reg)"
| "fire_all ev ((w, t) # events) reg =
     (case fire ev w t reg of
        (r, reg') \<Rightarrow> (case fire_all ev events reg' of (rs, reg'') \<Rightarrow> (r # rs, reg'')))"

subsection \<open>The factories\<close>

definition exit_if_file_exists :: "string \<Rightarrow> 't registry \<Rightarrow> 't registry" where
  "exit_if_file_exists fname reg =
     register_hook ''execute.task-pre-execute'' (Check_file fname) reg"

text \<open>
  \<^verbatim>\<open>if not function_takes_Task: f = lambda t : f()\<close> stores the lambda in the cell \<^verbatim>\<open>f\<close>;
  the function the caller supplied is then no longer referenced from anywhere.
\<close>

definition exit_when_true :: "'t pyfun \<Rightarrow> bool \<Rightarrow> 't registry \<Rightarrow> 't registry" where
  "exit_when_true f function_takes_Task reg =
     (let f = (if \<not> function_takes_Task then Discard_arg else Supplied f)
      in register_hook ''execute.task-executed1'' (Exit_when f) reg)"

definition exit_after_n_tasks :: "int \<Rightarrow> 't registry \<Rightarrow> 't registry" where
  "exit_after_n_tasks n reg =
     (let executed = 0
      in register_hook ''execute.task-executed1'' (Exit_after n executed) reg)"

text \<open>
  The world is the one of the call: \<^verbatim>\<open>time()\<close> is read once, here. Each \<^verbatim>\<open>deadline += ...\<close>
  may raise \<open>OverflowError\<close>; the function is then left before \<^verbatim>\<open>register_hook\<close>.
\<close>

definition exit_after_time ::
  "world \<Rightarrow> number \<Rightarrow> number \<Rightarrow> number \<Rightarrow> 't registry \<Rightarrow> unit result \<times> 't registry" where
  "exit_after_time w hours minutes seconds reg =
     (let deadline = time_now w
      in case float_plus deadline seconds of
           Raise e \<Rightarrow> (Raise e, reg)
         | Return deadline \<Rightarrow>
      (case int_times 60 minutes of
           Raise e \<Rightarrow> (Raise e, reg)
         | Return minutes60 \<Rightarrow>
      (case float_plus deadline minutes60 of
           Raise e \<Rightarrow> (Raise e, reg)
         | Return deadline \<Rightarrow>
      (case int_times (60 * 60) hours of
           Raise e \<Rightarrow> (Raise e, reg)
         | Return hours3600 \<Rightarrow>
      (case float_plus deadline hours3600 of
           Raise e \<Rightarrow> (Raise e, reg)
         | Return deadline \<Rightarrow>
             (Return (),
              register_hook ''execute.task-executed1'' (Check_time deadline) reg))))))"

text \<open>
  The deadline as the expression \<^verbatim>\<open>now + seconds + 60*minutes + 3600*hours\<close>, evaluated as
  Python evaluates it, from left to right.
\<close>

definition deadline_expr :: "pyfloat \<Rightarrow> number \<Rightarrow> number \<Rightarrow> number \<Rightarrow> pyfloat result" where
  "deadline_expr now hours minutes seconds =
     (case float_plus now seconds of
        Raise e \<Rightarrow> Raise e
      | Return a \<Rightarrow>
     (case int_times 60 minutes of
        Raise e \<Rightarrow> Raise e
      | Return m \<Rightarrow>
     (case float_plus a m of
        Raise e \<Rightarrow> Raise e
      | Return b \<Rightarrow>
     (case int_times 3600 hours of
        Raise e \<Rightarrow> Raise e
      | Return h \<Rightarrow> float_plus b h))))"

subsection \<open>Python's \<^verbatim>\<open>int\<close> on a string\<close>

text \<open>
  What \<^verbatim>\<open>int\<close> does with a string depends on the interpreter in two ways, which are
  parameters here. \<open>max_str_digits\<close> is the interpreter's limit on the number of digits
  (\<^verbatim>\<open>sys.get_int_max_str_digits()\<close>: 0 for no limit, otherwise at least 640, 4300 by default
  where the limit exists). \<open>int_non_ascii\<close> is \<^verbatim>\<open>int\<close> on the strings that have a character
  outside ASCII, where the result depends on the interpreter's Unicode tables (digits and
  whitespace of other scripts are accepted).
\<close>

record python =
  max_str_digits :: nat
  int_non_ascii :: "string \<Rightarrow> int option"

definition is_ascii :: "char \<Rightarrow> bool" where
  "is_ascii c = ((of_char c :: nat) < 128)"

text \<open>
  On a string of ASCII characters, \<^verbatim>\<open>int(s)\<close> in base 10: whitespace around is dropped
  (tab, line feed, vertical tab, form feed, carriage return, space), then an optional sign,
  then digits, where single underscores may stand between digits. Anything else raises
  \<open>ValueError\<close> (here: \<open>None\<close>), and so do more digits than the limit.
\<close>

definition py_isspace :: "char \<Rightarrow> bool" where
  "py_isspace c =
     (c \<in> set [CHR 0x09, CHR 0x0A, CHR 0x0B, CHR 0x0C, CHR 0x0D, CHR 0x20])"

definition py_isdigit :: "char \<Rightarrow> bool" where
  "py_isdigit c = (c \<in> set ''0123456789'')"

definition digit_value :: "char \<Rightarrow> nat" where
  "digit_value c = of_char c - 48"

definition strip :: "string \<Rightarrow> string" where
  "strip s = rev (dropWhile py_isspace (rev (dropWhile py_isspace s)))"

text \<open>\<open>digits_from acc s\<close>: the rest of a numeral after a digit, \<open>acc\<close> the value so far.\<close>

fun digits_from :: "nat \<Rightarrow> string \<Rightarrow> nat option" where
  "digits_from acc [] = Some acc"
| "digits_from acc [c] =
     (if py_isdigit c then Some (10 * acc + digit_value c) else None)"
| "digits_from acc (c # d # s) =
     (if py_isdigit c then digits_from (10 * acc + digit_value c) (d # s)
      else if c = CHR ''_'' \<and> py_isdigit d then digits_from (10 * acc + digit_value d) s
      else None)"

definition py_nat :: "string \<Rightarrow> nat option" where
  "py_nat s =
     (case s of
        [] \<Rightarrow> None
      | c # r \<Rightarrow> if py_isdigit c then digits_from (digit_value c) r else None)"

definition int_ascii :: "string \<Rightarrow> int option" where
  "int_ascii s =
     (case strip s of
        [] \<Rightarrow> None
      | c # r \<Rightarrow>
          if c = CHR ''-'' then map_option (\<lambda>n. - int n) (py_nat r)
          else if c = CHR ''+'' then map_option int (py_nat r)
          else map_option int (py_nat (c # r)))"

definition py_int :: "python \<Rightarrow> string \<Rightarrow> int option" where
  "py_int py s =
     (if \<not> list_all is_ascii s then int_non_ascii py s
      else if 0 < max_str_digits py \<and> max_str_digits py < length (filter py_isdigit s)
      then None
      else int_ascii s)"

subsection \<open>\<^verbatim>\<open>exit_env_vars\<close>\<close>

text \<open>
  \<^verbatim>\<open>x = 0\<close> followed by \<^verbatim>\<open>if KEY in environ: x = int(environ[KEY])\<close>: the value of \<^verbatim>\<open>x\<close>
  afterwards, or the \<open>ValueError\<close> of \<^verbatim>\<open>int\<close>.
\<close>

definition int_or_zero :: "python \<Rightarrow> (string \<rightharpoonup> string) \<Rightarrow> string \<Rightarrow> int result" where
  "int_or_zero py environ key =
     (case environ key of
        None \<Rightarrow> Return 0
      | Some s \<Rightarrow> (case py_int py s of None \<Rightarrow> Raise ValueError | Some v \<Rightarrow> Return v))"

text \<open>
  The environment is the mapping the caller passes (\<^verbatim>\<open>os.environ\<close> when none is passed).
  The result is \<open>Return ()\<close> or the exception raised, with the registry as the call
  leaves it: what was registered before an exception stays registered.
\<close>

definition exit_env_vars ::
  "python \<Rightarrow> world \<Rightarrow> (string \<rightharpoonup> string) \<Rightarrow> 't registry \<Rightarrow> unit result \<times> 't registry" where
  "exit_env_vars py w environ reg =
     (case (case environ ''JUG_MAX_TASKS'' of
              None \<Rightarrow> Return reg
            | Some s \<Rightarrow> (case py_int py s of
                           None \<Rightarrow> Raise ValueError
                         | Some n \<Rightarrow> Return (exit_after_n_tasks n reg))) of
        Raise e \<Rightarrow> (Raise e, reg)
      | Return reg1 \<Rightarrow>
     (case int_or_zero py environ ''JUG_MAX_HOURS'' of
        Raise e \<Rightarrow> (Raise e, reg1)
      | Return hours \<Rightarrow>
     (case int_or_zero py environ ''JUG_MAX_MINUTES'' of
        Raise e \<Rightarrow> (Raise e, reg1)
      | Return minutes \<Rightarrow>
     (case int_or_zero py environ ''JUG_MAX_SECONDS'' of
        Raise e \<Rightarrow> (Raise e, reg1)
      | Return seconds \<Rightarrow>
     (case (if hours \<noteq> 0 \<or> minutes \<noteq> 0 \<or> seconds \<noteq> 0
            then exit_after_time w (Integer hours) (Integer minutes) (Integer seconds) reg1
            else (Return (), reg1)) of
        (Raise e, reg2) \<Rightarrow> (Raise e, reg2)
      | (Return u, reg2) \<Rightarrow>
     (let reg3 = (case environ ''JUG_EXIT_IF_FILE_EXISTS'' of
                    None \<Rightarrow> reg2
                  | Some fname \<Rightarrow> exit_if_file_exists fname reg2)
      in (Return (), reg3)))))))"

subsection \<open>The kinds of watchers in a registry\<close>

text \<open>Which of the four callbacks a registered closure is.\<close>

datatype kind = File_marker | Predicate | Counter | Deadline

fun kind_of :: "'t hook \<Rightarrow> kind" where
  "kind_of (Check_file fname) = File_marker"
| "kind_of (Exit_when f) = Predicate"
| "kind_of (Exit_after n executed) = Counter"
| "kind_of (Check_time deadline) = Deadline"

definition watchers :: "kind \<Rightarrow> 't registry \<Rightarrow> 't registry" where
  "watchers k reg = filter (\<lambda>(name, h). kind_of h = k) reg"

section \<open>Properties\<close>

subsection \<open>Rounding to a double\<close>

text \<open>
  Facts about the rounding: it is odd, monotone, exact on the integers below \<open>2 ^ 53\<close>, and
  infinite from \<open>2 ^ 1024\<close> on.
\<close>

lemma round_half_even_of_int: "round_half_even (of_int m) = m"
  by (simp add: round_half_even_def)

lemma round_half_even_bounds: "\<lfloor>q\<rfloor> \<le> round_half_even q" "round_half_even q \<le> \<lfloor>q\<rfloor> + 1"
  by (simp_all add: round_half_even_def Let_def)

lemma round_half_even_mono:
  assumes "q \<le> r"
  shows "round_half_even q \<le> round_half_even r"
proof (cases "\<lfloor>q\<rfloor> = \<lfloor>r\<rfloor>")
  case True
  with assms show ?thesis
    by (auto simp: round_half_even_def Let_def)
next
  case False
  with assms have "\<lfloor>q\<rfloor> < \<lfloor>r\<rfloor>"
    by (simp add: floor_mono order.not_eq_order_implies_strict)
  then have "\<lfloor>q\<rfloor> + 1 \<le> \<lfloor>r\<rfloor>" by simp
  with round_half_even_bounds(2) [of q] round_half_even_bounds(1) [of r]
  show ?thesis by linarith
qed

lemma round_half_even_minus: "round_half_even (- q) = - round_half_even q"
proof (cases "q \<in> \<int>")
  case True
  then obtain m where "q = of_int m" by (auto elim: Ints_cases)
  then show ?thesis
    by (simp add: round_half_even_of_int flip: of_int_minus)
next
  case False
  then have ne: "q \<noteq> of_int \<lfloor>q\<rfloor>"
    by (metis Ints_of_int)
  then have fl: "\<lfloor>- q\<rfloor> = - \<lfloor>q\<rfloor> - 1"
    by (simp add: floor_minus ceiling_altdef)
  have "of_int \<lfloor>q\<rfloor> \<le> q" "q < of_int \<lfloor>q\<rfloor> + 1"
    by linarith+
  with ne have fr: "0 < q - of_int \<lfloor>q\<rfloor>" "q - of_int \<lfloor>q\<rfloor> < 1"
    by linarith+
  show ?thesis
    using fr unfolding round_half_even_def Let_def fl
    by (auto simp: algebra_simps)
qed

lemma ulp_pos: "0 < ulp x"
  by (simp add: ulp_def)

lemma exponent_minus: "exponent (- x) = exponent x"
  by (simp add: exponent_def)

lemma ulp_minus: "ulp (- x) = ulp x"
  by (simp add: ulp_def exponent_minus)

lemma round_value_minus: "round_value (- x) = - round_value x"
  by (simp add: round_value_def ulp_minus round_half_even_minus)

lemma floor_log_bounds:
  assumes "0 < x"
  shows "2 powr of_int \<lfloor>log 2 x\<rfloor> \<le> x" "x < 2 powr (of_int \<lfloor>log 2 x\<rfloor> + 1)"
  using floor_log_eq_powr_iff [of x 2 "\<lfloor>log 2 x\<rfloor>"] assms by simp_all

lemma less_powr_exponent:
  assumes "0 < x"
  shows "x < 2 powr (of_int (exponent x) + 1)"
proof -
  have "of_int \<lfloor>log 2 x\<rfloor> + 1 \<le> (of_int (exponent x) + 1 :: real)"
    using assms by (simp add: exponent_def)
  then have "2 powr (of_int \<lfloor>log 2 x\<rfloor> + 1) \<le> (2::real) powr (of_int (exponent x) + 1)"
    by (intro powr_mono) simp_all
  with floor_log_bounds(2) [OF assms] show ?thesis by linarith
qed

lemma powr_exponent_le:
  assumes "0 < x" and "- 1022 \<le> \<lfloor>log 2 x\<rfloor>"
  shows "2 powr of_int (exponent x) \<le> x"
proof -
  from assms have "exponent x = \<lfloor>log 2 x\<rfloor>"
    by (simp add: exponent_def)
  with floor_log_bounds(1) [OF assms(1)] show ?thesis by simp
qed

lemma exponent_mono:
  assumes "0 < x" and "x \<le> y"
  shows "exponent x \<le> exponent y"
proof -
  from assms have "log 2 x \<le> log 2 y" by simp
  then have "\<lfloor>log 2 x\<rfloor> \<le> \<lfloor>log 2 y\<rfloor>" by (rule floor_mono)
  with assms show ?thesis by (simp add: exponent_def)
qed

lemma ulp_times: "2 ^ 52 * ulp x = 2 powr of_int (exponent x)"
proof -
  have "(2::real) ^ 52 = 2 powr 52" by simp
  then have "2 ^ 52 * ulp x = 2 powr (52 + of_int (exponent x - 52))"
    unfolding ulp_def by (simp only: powr_add)
  then show ?thesis by simp
qed

lemma ulp_times': "2 ^ 53 * ulp x = 2 powr (of_int (exponent x) + 1)"
proof -
  have "(2::real) ^ 53 = 2 powr 53" by simp
  then have "2 ^ 53 * ulp x = 2 powr (53 + of_int (exponent x - 52))"
    unfolding ulp_def by (simp only: powr_add)
  then show ?thesis by (simp add: add.commute)
qed

lemma round_value_nonneg:
  assumes "0 < x"
  shows "0 \<le> round_value x"
proof -
  have "0 \<le> x / ulp x" using assms ulp_pos [of x] by simp
  then have "0 \<le> \<lfloor>x / ulp x\<rfloor>" by simp
  with round_half_even_bounds(1) [of "x / ulp x"] have "0 \<le> round_half_even (x / ulp x)"
    by linarith
  with assms ulp_pos [of x] show ?thesis
    by (simp add: round_value_def)
qed

lemma round_value_upper:
  assumes "0 < x"
  shows "round_value x \<le> 2 powr (of_int (exponent x) + 1)"
proof -
  have "x < 2 ^ 53 * ulp x"
    using less_powr_exponent [OF assms] by (simp only: ulp_times')
  then have "x / ulp x < 2 ^ 53"
    using ulp_pos [of x] by (simp add: field_simps)
  then have "x / ulp x < of_int (2 ^ 53)" by simp
  then have "\<lfloor>x / ulp x\<rfloor> < 2 ^ 53" by (simp only: floor_less_iff)
  with round_half_even_bounds(2) [of "x / ulp x"] have "round_half_even (x / ulp x) \<le> 2 ^ 53"
    by linarith
  then have "real_of_int (round_half_even (x / ulp x)) \<le> 2 ^ 53"
    by (metis of_int_le_iff of_int_numeral of_int_power)
  then have "real_of_int (round_half_even (x / ulp x)) * ulp x \<le> 2 ^ 53 * ulp x"
    using ulp_pos [of x] by (simp only: mult_le_cancel_right_pos)
  then have "real_of_int (round_half_even (x / ulp x)) * ulp x \<le> 2 powr (of_int (exponent x) + 1)"
    by (simp only: ulp_times')
  with assms show ?thesis
    by (simp add: round_value_def)
qed

lemma round_value_lower:
  assumes "0 < x" and "- 1022 \<le> \<lfloor>log 2 x\<rfloor>"
  shows "2 powr of_int (exponent x) \<le> round_value x"
proof -
  have "2 ^ 52 * ulp x \<le> x"
    using powr_exponent_le [OF assms] by (simp only: ulp_times)
  then have "2 ^ 52 \<le> x / ulp x"
    using ulp_pos [of x] by (simp add: field_simps)
  then have "of_int (2 ^ 52) \<le> x / ulp x" by simp
  then have "2 ^ 52 \<le> \<lfloor>x / ulp x\<rfloor>" by (simp only: le_floor_iff)
  with round_half_even_bounds(1) [of "x / ulp x"] have "2 ^ 52 \<le> round_half_even (x / ulp x)"
    by linarith
  then have "2 ^ 52 \<le> real_of_int (round_half_even (x / ulp x))"
    by (metis of_int_le_iff of_int_numeral of_int_power)
  then have "2 ^ 52 * ulp x \<le> real_of_int (round_half_even (x / ulp x)) * ulp x"
    using ulp_pos [of x] by (simp only: mult_le_cancel_right_pos)
  then have "2 powr of_int (exponent x) \<le> real_of_int (round_half_even (x / ulp x)) * ulp x"
    by (simp only: ulp_times)
  with assms show ?thesis
    by (simp add: round_value_def)
qed

lemma round_value_mono_pos:
  assumes "0 < x" and "x \<le> y"
  shows "round_value x \<le> round_value y"
proof (cases "exponent x = exponent y")
  case True
  then have u: "ulp x = ulp y" by (simp add: ulp_def)
  have "x / ulp y \<le> y / ulp y"
    using assms ulp_pos [of y] by (simp add: divide_right_mono)
  then have "round_half_even (x / ulp y) \<le> round_half_even (y / ulp y)"
    by (rule round_half_even_mono)
  then have "real_of_int (round_half_even (x / ulp y)) * ulp y
      \<le> real_of_int (round_half_even (y / ulp y)) * ulp y"
    using ulp_pos [of y] by (simp only: mult_le_cancel_right_pos of_int_le_iff)
  with assms show ?thesis
    by (simp add: round_value_def u)
next
  case False
  from assms have ypos: "0 < y" by simp
  from False exponent_mono [OF assms] have lt: "exponent x < exponent y" by simp
  have "- 1022 \<le> exponent x" by (simp add: exponent_def)
  with lt have "- 1022 < exponent y" by simp
  moreover have "exponent y = \<lfloor>log 2 y\<rfloor> \<or> exponent y = - 1022"
    using ypos by (auto simp: exponent_def max_def)
  ultimately have norm: "- 1022 \<le> \<lfloor>log 2 y\<rfloor>"
    by linarith
  from lt have "of_int (exponent x) + 1 \<le> (of_int (exponent y) :: real)"
    by (metis of_int_1 of_int_add of_int_le_iff zless_imp_add1_zle)
  then have "2 powr (of_int (exponent x) + 1) \<le> (2::real) powr of_int (exponent y)"
    by (intro powr_mono) simp_all
  with round_value_upper [OF assms(1)] round_value_lower [OF ypos norm]
  show ?thesis by linarith
qed

lemma round_value_zero: "round_value 0 = 0"
  by (simp add: round_value_def)

lemma round_value_mono:
  assumes "x \<le> y"
  shows "round_value x \<le> round_value y"
proof -
  consider "0 < x" | "x \<le> 0" "0 \<le> y" | "y < 0" by linarith
  then show ?thesis
  proof cases
    case 1
    from 1 assms show ?thesis by (rule round_value_mono_pos)
  next
    case 2
    have "round_value x \<le> 0"
    proof (cases "x = 0")
      case True then show ?thesis by (simp add: round_value_zero)
    next
      case False
      with 2 have "0 < - x" by simp
      from round_value_nonneg [OF this] show ?thesis by (simp add: round_value_minus)
    qed
    moreover have "0 \<le> round_value y"
    proof (cases "y = 0")
      case True then show ?thesis by (simp add: round_value_zero)
    next
      case False
      with 2 have "0 < y" by simp
      then show ?thesis by (rule round_value_nonneg)
    qed
    ultimately show ?thesis by linarith
  next
    case 3
    with assms have "0 < - y" "- y \<le> - x" by simp_all
    from round_value_mono_pos [OF this] show ?thesis
      by (simp add: round_value_minus)
  qed
qed

lemma ieee_round_zero: "ieee_round 0 = Finite 0"
  by (simp add: ieee_round_def round_value_zero)

lemma round_value_int:
  assumes "\<bar>i\<bar> < 2 ^ 53"
  shows "round_value (of_int i) = of_int i"
proof (cases "i = 0")
  case True
  then show ?thesis by (simp add: round_value_zero)
next
  case False
  define a where "a = \<bar>real_of_int i\<bar>"
  define k where "k = \<lfloor>log 2 a\<rfloor>"
  from False have a1: "1 \<le> a"
    unfolding a_def by (metis int_one_le_iff_zero_less of_int_1 of_int_abs of_int_le_iff
        zero_less_abs_iff)
  then have apos: "0 < a" by simp
  from assms have a53: "a < 2 ^ 53"
    unfolding a_def by (metis of_int_abs of_int_less_iff of_int_numeral of_int_power)
  from a1 have "0 \<le> log 2 a" by simp
  then have k0: "0 \<le> k" unfolding k_def by simp
  have "a < 2 powr 53" using a53 by simp
  then have "log 2 a < 53" using apos by (simp add: log_less_iff)
  then have "k < 53" unfolding k_def by (simp add: floor_less_iff)
  then have k52: "k \<le> 52" by simp
  have ex: "exponent (of_int i) = k"
    using k0 by (simp add: exponent_def k_def a_def)
  define n where "n = nat (52 - k)"
  have "real_of_int (k - 52) = - real n"
    using k52 by (simp add: n_def)
  then have u: "ulp (of_int i) = inverse (2 ^ n)"
    by (simp add: ulp_def ex powr_minus powr_realpow)
  have q: "real_of_int i / ulp (of_int i) = of_int (i * 2 ^ n)"
    by (simp add: u field_simps)
  have "round_value (of_int i) =
      of_int (round_half_even (real_of_int i / ulp (of_int i))) * ulp (of_int i)"
    using False by (simp add: round_value_def)
  also have "\<dots> = of_int (round_half_even (of_int (i * 2 ^ n))) * ulp (of_int i)"
    by (simp only: q)
  also have "\<dots> = of_int (i * 2 ^ n) * inverse (2 ^ n)"
    by (simp only: round_half_even_of_int u)
  also have "\<dots> = of_int i"
    by simp
  finally show ?thesis .
qed

lemma ieee_round_int:
  assumes "\<bar>i\<bar> < 2 ^ 53"
  shows "ieee_round (of_int i) = Finite (of_int i)"
proof -
  from assms have "\<bar>real_of_int i\<bar> < 2 ^ 53"
    by (metis of_int_abs of_int_less_iff of_int_numeral of_int_power)
  moreover have "(2::real) ^ 53 \<le> 2 ^ 1024"
    by (rule power_increasing) simp_all
  ultimately have "\<bar>real_of_int i\<bar> < 2 ^ 1024" by linarith
  then have "\<not> 2 ^ 1024 \<le> real_of_int i" "\<not> real_of_int i \<le> - (2 ^ 1024)"
    by linarith+
  then show ?thesis
    by (simp only: ieee_round_def round_value_int [OF assms] Let_def if_False)
qed

lemma float_of_int_small:
  assumes "\<bar>i\<bar> < 2 ^ 53"
  shows "float_of_int i = Return (Finite (of_int i))"
  by (simp add: float_of_int_def ieee_round_int [OF assms])





subsection \<open>Evaluation of \<^verbatim>\<open>int\<close> on some strings\<close>

text \<open>On these strings the result is the same for every interpreter.\<close>

lemmas py_int_eval =
  py_int_def is_ascii_def int_ascii_def strip_def py_isspace_def py_nat_def py_isdigit_def
  digit_value_def

lemma py_int_5: "py_int py ''5'' = Some 5"
  by (auto simp: py_int_eval)

lemma py_int_0: "py_int py ''0'' = Some 0"
  by (auto simp: py_int_eval)

lemma py_int_1: "py_int py ''1'' = Some 1"
  by (auto simp: py_int_eval)

lemma py_int_minus_1: "py_int py ''-1'' = Some (- 1)"
  by (auto simp: py_int_eval)

lemma py_int_abc: "py_int py ''abc'' = None"
  by (auto simp: py_int_eval)

subsection \<open>One callback under its event\<close>

lemma fire_single:
  "fire ev w t [(ev, h)] = (case run_hook w h t of (r, h') \<Rightarrow> (r, [(ev, h')]))"
  by (cases "run_hook w h t") (auto split: result.splits)

lemma fire_all_exit_after:
  "fire_all ev events [(ev, Exit_after n c)] =
     (map (\<lambda>i. if n \<le> c + int i + 1 then exit 0 else Return ()) [0..<length events],
      [(ev, Exit_after n (c + int (length events)))])"
proof (induction events arbitrary: c)
  case Nil
  show ?case by simp
next
  case (Cons e events)
  obtain w t where e: "e = (w, t)" by (cases e)
  have step: "fire ev w t [(ev, Exit_after n c)] =
      (if n \<le> c + 1 then exit 0 else Return (), [(ev, Exit_after n (c + 1))])"
    by (simp add: fire_single exit_after_def Let_def del: fire.simps)
  have shift: "[0..<Suc (length events)] = 0 # map Suc [0..<length events]"
    by (simp add: upt_conv_Cons map_Suc_upt del: upt_Suc)
  show ?case
    unfolding e
    by (simp add: step Cons.IH shift o_def add.assoc add.commute del: upt_Suc fire.simps)
qed

lemma fire_all_check_time:
  "fire_all ev events [(ev, Check_time d)] =
     (map (\<lambda>(w, t). if fge (Finite (clock w)) d then exit 0 else Return ()) events,
      [(ev, Check_time d)])"
proof (induction events)
  case Nil
  show ?case by simp
next
  case (Cons e events)
  obtain w t where e: "e = (w, t)" by (cases e)
  show ?case unfolding e
    by (simp add: fire_single check_time_def time_now_def Cons.IH del: fire.simps)
qed

lemma fire_all_check_file:
  "fire_all ev events [(ev, Check_file p)] =
     (map (\<lambda>(w, t). if p \<in> existing w then exit 0 else Return ()) events, [(ev, Check_file p)])"
proof (induction events)
  case Nil
  show ?case by simp
next
  case (Cons e events)
  obtain w t where e: "e = (w, t)" by (cases e)
  show ?case unfolding e
    by (simp add: fire_single check_file_def path_exists_def Cons.IH del: fire.simps)
qed

subsection \<open>The counter watcher\<close>

text \<open>
  C2. \<^verbatim>\<open>exit_after_n_tasks(n)\<close>, for every integer \<open>n\<close>: the counter of the callback starts
  at 0; every call of the callback adds exactly 1 to it, whatever the call's result, and
  nothing sets it back; over any sequence of post-execute events, the event number
  \<open>i + 1\<close> exits with status 0 when \<open>n \<le> i + 1\<close> and returns to the scheduler otherwise, and
  after \<open>k\<close> events the counter is \<open>k\<close>. So the first event that exits is the first at which
  the counter has reached \<open>n\<close>: the third for \<open>n = 3\<close>, the first for \<open>n = 1\<close> and for
  \<open>n \<le> 0\<close>.
\<close>

theorem exit_after_n_tasks_counter:
  "exit_after_n_tasks n reg = reg @ [(''execute.task-executed1'', Exit_after n 0)]
   \<and> snd (exit_after n executed t) = executed + 1
   \<and> fire_all ''execute.task-executed1'' events (exit_after_n_tasks n []) =
       (map (\<lambda>i. if n \<le> int i + 1 then exit 0 else Return ()) [0..<length events],
        [(''execute.task-executed1'', Exit_after n (int (length events)))])
   \<and> (n \<le> 1 \<longrightarrow>
        fst (fire ''execute.task-executed1'' w t (exit_after_n_tasks n [])) = exit 0)"
  for t :: 't and events :: "(world \<times> 't) list" and reg :: "'t registry"
proof -
  have reg: "\<And>r. exit_after_n_tasks n r = r @ [(''execute.task-executed1'', Exit_after n 0)]"
    by (simp add: exit_after_n_tasks_def register_hook_def)
  have incr: "snd (exit_after n executed t) = executed + 1"
    by (simp add: exit_after_def Let_def)
  have seq: "fire_all ''execute.task-executed1'' events (exit_after_n_tasks n []) =
       (map (\<lambda>i. if n \<le> int i + 1 then exit 0 else Return ()) [0..<length events],
        [(''execute.task-executed1'', Exit_after n (int (length events)))])"
    using fire_all_exit_after [of "''execute.task-executed1''" events n 0]
    by (simp add: reg)
  have first: "n \<le> 1 \<longrightarrow>
        fst (fire ''execute.task-executed1'' w t (exit_after_n_tasks n [])) = exit 0"
    by (simp add: reg fire_single exit_after_def Let_def del: fire.simps)
  from reg incr seq first show ?thesis by blast
qed

theorem exit_after_n_tasks_counter_witness:
  "fire_all ''execute.task-executed1''
      [(\<lparr>clock = 10, existing = {}\<rparr>, ''t1''), (\<lparr>clock = 20, existing = {}\<rparr>, ''t2''),
       (\<lparr>clock = 30, existing = {}\<rparr>, ''t3'')]
      (exit_after_n_tasks 3 []) =
     ([Return (), Return (), exit 0], [(''execute.task-executed1'', Exit_after 3 3)])
   \<and> fire_all ''execute.task-executed1'' [(\<lparr>clock = 10, existing = {}\<rparr>, ''t1'')]
      (exit_after_n_tasks 1 []) =
     ([exit 0], [(''execute.task-executed1'', Exit_after 1 1)])
   \<and> (0::int) \<le> 1
   \<and> fst (fire ''execute.task-executed1'' \<lparr>clock = 10, existing = {}\<rparr> ''t1''
        (exit_after_n_tasks 0 [])) = exit 0
   \<and> fst (fire ''execute.task-executed1'' \<lparr>clock = 10, existing = {}\<rparr> ''t1''
        (exit_after_n_tasks (- 2) [])) = exit 0"
proof -
  let ?w1 = "\<lparr>clock = 10, existing = {}\<rparr>"
  let ?w2 = "\<lparr>clock = 20, existing = {}\<rparr>"
  let ?w3 = "\<lparr>clock = 30, existing = {}\<rparr>"
  have a1: "fire_all ''execute.task-executed1'' [(?w1, ''t1''), (?w2, ''t2''), (?w3, ''t3'')]
      (exit_after_n_tasks 3 []) =
     ([Return (), Return (), exit 0], [(''execute.task-executed1'', Exit_after 3 3)])"
    using exit_after_n_tasks_counter [of 3 "[]" 0 "''t1''" "[(?w1, ''t1''), (?w2, ''t2''), (?w3, ''t3'')]" ?w1,
        THEN conjunct2, THEN conjunct2, THEN conjunct1]
    by (simp del: fire_all.simps fire.simps)
  have a2: "fire_all ''execute.task-executed1'' [(?w1, ''t1'')] (exit_after_n_tasks 1 []) =
     ([exit 0], [(''execute.task-executed1'', Exit_after 1 1)])"
    using exit_after_n_tasks_counter [of 1 "[]" 0 "''t1''" "[(?w1, ''t1'')]" ?w1,
        THEN conjunct2, THEN conjunct2, THEN conjunct1]
    by (simp del: fire_all.simps fire.simps)
  have a3: "fst (fire ''execute.task-executed1'' ?w1 ''t1'' (exit_after_n_tasks 0 [])) = exit 0"
    using exit_after_n_tasks_counter [of 0 "[]" 0 "''t1''" "[]" ?w1,
        THEN conjunct2, THEN conjunct2, THEN conjunct2]
    by (simp del: fire_all.simps fire.simps)
  have a4: "fst (fire ''execute.task-executed1'' ?w1 ''t1'' (exit_after_n_tasks (- 2) [])) = exit 0"
    using exit_after_n_tasks_counter [of "- 2" "[]" 0 "''t1''" "[]" ?w1,
        THEN conjunct2, THEN conjunct2, THEN conjunct2]
    by (simp del: fire_all.simps fire.simps)
  from a1 a2 a3 a4 show ?thesis by simp
qed

subsection \<open>The arithmetic of \<^verbatim>\<open>exit_after_time\<close>\<close>




text \<open>The function computes the deadline of the expression, and registers when it has one.\<close>

lemma exit_after_time_eq:
  "exit_after_time w hours minutes seconds reg =
     (case deadline_expr (Finite (clock w)) hours minutes seconds of
        Raise e \<Rightarrow> (Raise e, reg)
      | Return d \<Rightarrow> (Return (), reg @ [(''execute.task-executed1'', Check_time d)]))"
  by (simp add: exit_after_time_def deadline_expr_def time_now_def register_hook_def
      split: result.splits)


text \<open>With integers, on a clock and sums that are integers below \<open>2 ^ 53\<close>, every step is exact.\<close>

lemma deadline_expr_exact:
  assumes "\<bar>c\<bar> < 2 ^ 53" and "\<bar>s\<bar> < 2 ^ 53" and "\<bar>c + s\<bar> < 2 ^ 53"
    and "\<bar>60 * m\<bar> < 2 ^ 53" and "\<bar>c + s + 60 * m\<bar> < 2 ^ 53"
    and "\<bar>3600 * h\<bar> < 2 ^ 53" and "\<bar>c + s + 60 * m + 3600 * h\<bar> < 2 ^ 53"
  shows "deadline_expr (Finite (of_int c)) (Integer h) (Integer m) (Integer s) =
    Return (Finite (of_int (c + s + 60 * m + 3600 * h)))"
proof -
  have s1: "float_plus (Finite (of_int c)) (Integer s) = Return (Finite (of_int (c + s)))"
    using ieee_round_int [OF assms(3)] by (simp add: float_of_int_small [OF assms(2)])
  have s2: "float_plus (Finite (of_int (c + s))) (Integer (60 * m)) =
      Return (Finite (of_int (c + s + 60 * m)))"
    using ieee_round_int [OF assms(5)] by (simp add: float_of_int_small [OF assms(4)])
  have s3: "float_plus (Finite (of_int (c + s + 60 * m))) (Integer (3600 * h)) =
      Return (Finite (of_int (c + s + 60 * m + 3600 * h)))"
    using ieee_round_int [OF assms(7)] by (simp add: float_of_int_small [OF assms(6)])
  show ?thesis
    unfolding deadline_expr_def int_times.simps
    by (simp only: s1 s2 s3 result.case)
qed

text \<open>Zero, as an integer or as a float, leaves a deadline that is a double as it is.\<close>

lemma float_plus_zero:
  assumes "is_double x" and "z \<in> {Integer 0, Floating (Finite 0)}"
  shows "float_plus (Finite x) z = Return (Finite x)"
  using assms float_of_int_small [of 0]
  by (auto simp: is_double_def)

lemma int_times_zero:
  assumes "\<bar>k\<bar> < 2 ^ 53" and "z \<in> {Integer 0, Floating (Finite 0)}"
  shows "int_times k z = Return z"
  using assms float_of_int_small [OF assms(1)]
  by (auto simp: ieee_round_zero)

lemma deadline_expr_zero:
  assumes "is_double x" and "hours \<in> {Integer 0, Floating (Finite 0)}"
    and "minutes \<in> {Integer 0, Floating (Finite 0)}"
    and "seconds \<in> {Integer 0, Floating (Finite 0)}"
  shows "deadline_expr (Finite x) hours minutes seconds = Return (Finite x)"
proof -
  have k: "\<bar>60 :: int\<bar> < 2 ^ 53" "\<bar>3600 :: int\<bar> < 2 ^ 53" by simp_all
  show ?thesis
    unfolding deadline_expr_def
    by (simp only: float_plus_zero [OF assms(1) assms(4)] int_times_zero [OF k(1) assms(3)]
        float_plus_zero [OF assms(1) assms(3)] int_times_zero [OF k(2) assms(2)]
        float_plus_zero [OF assms(1) assms(2)] result.case)
qed

subsection \<open>The deadline watcher\<close>

text \<open>
  C3. \<^verbatim>\<open>exit_after_time(hours, minutes, seconds)\<close> reads the clock once, when it is called, and
  evaluates \<^verbatim>\<open>now + seconds + 60*minutes + 3600*hours\<close> in floating point; when that gives a
  deadline, the callback it registers holds this deadline (when it raises, nothing is
  registered). Over any sequence of post-execute events a callback holding a deadline exits
  with status 0 at every event whose clock is \<^verbatim>\<open>>=\<close> the deadline and returns to the
  scheduler at every other event, and the deadline it holds stays the same. With all three
  parameters zero, on a clock that is a double, the deadline is the time of the call, and
  an event at or after that time exits.
\<close>

theorem exit_after_time_deadline:
  "exit_after_time w hours minutes seconds reg =
     (case deadline_expr (Finite (clock w)) hours minutes seconds of
        Raise e \<Rightarrow> (Raise e, reg)
      | Return d \<Rightarrow> (Return (), reg @ [(''execute.task-executed1'', Check_time d)]))
   \<and> fire_all ''execute.task-executed1'' events [(''execute.task-executed1'', Check_time d)] =
       (map (\<lambda>(w', t). if fge (Finite (clock w')) d then exit 0 else Return ()) events,
        [(''execute.task-executed1'', Check_time d)])
   \<and> (is_double (clock w) \<and> clock w \<le> clock w'
        \<and> hours \<in> {Integer 0, Floating (Finite 0)}
        \<and> minutes \<in> {Integer 0, Floating (Finite 0)}
        \<and> seconds \<in> {Integer 0, Floating (Finite 0)} \<longrightarrow>
        exit_after_time w hours minutes seconds ([] :: 't registry) =
          (Return (), [(''execute.task-executed1'', Check_time (Finite (clock w)))])
        \<and> fst (fire ''execute.task-executed1'' w' t
              (snd (exit_after_time w hours minutes seconds []))) = exit 0)"
  for t :: 't and events :: "(world \<times> 't) list" and reg :: "'t registry"
proof -
  have zero: "exit_after_time w hours minutes seconds ([] :: 't registry) =
          (Return (), [(''execute.task-executed1'', Check_time (Finite (clock w)))])
        \<and> fst (fire ''execute.task-executed1'' w' t
              (snd (exit_after_time w hours minutes seconds ([] :: 't registry)))) = exit 0"
    if "is_double (clock w)" "clock w \<le> clock w'"
      "hours \<in> {Integer 0, Floating (Finite 0)}"
      "minutes \<in> {Integer 0, Floating (Finite 0)}"
      "seconds \<in> {Integer 0, Floating (Finite 0)}"
  proof -
    have reg: "exit_after_time w hours minutes seconds ([] :: 't registry) =
          (Return (), [(''execute.task-executed1'', Check_time (Finite (clock w)))])"
      by (simp add: exit_after_time_eq deadline_expr_zero [OF that(1,3,4,5)])
    show ?thesis
      using that(2)
      by (simp add: reg fire_single check_time_def time_now_def del: fire.simps)
  qed
  from exit_after_time_eq [of w hours minutes seconds reg]
    fire_all_check_time [of "''execute.task-executed1''" events d] zero
  show ?thesis by blast
qed

lemma is_double_of_int: "\<bar>i\<bar> < 2 ^ 53 \<Longrightarrow> is_double (of_int i)"
  by (simp add: is_double_def ieee_round_int)

lemma is_double_1000: "is_double 1000"
  using is_double_of_int [of 1000] by simp

theorem exit_after_time_deadline_witness:
  "is_double (clock \<lparr>clock = 1000, existing = {}\<rparr>)
   \<and> clock \<lparr>clock = 1000, existing = {}\<rparr> \<le> clock \<lparr>clock = 1000, existing = {}\<rparr>
   \<and> Integer 0 \<in> {Integer 0, Floating (Finite 0)}
   \<and> exit_after_time \<lparr>clock = 1000, existing = {}\<rparr> (Integer 0) (Integer 1) (Integer 0)
        ([] :: string registry) =
       (Return (), [(''execute.task-executed1'', Check_time (Finite 1060))])
   \<and> fire_all ''execute.task-executed1''
        [(\<lparr>clock = 1050, existing = {}\<rparr>, ''t1''), (\<lparr>clock = 1059, existing = {}\<rparr>, ''t2''),
         (\<lparr>clock = 1061, existing = {}\<rparr>, ''t3'')]
        [(''execute.task-executed1'', Check_time (Finite 1060))] =
       ([Return (), Return (), exit 0], [(''execute.task-executed1'', Check_time (Finite 1060))])
   \<and> fst (fire ''execute.task-executed1'' \<lparr>clock = 1000, existing = {}\<rparr> ''t1''
        (snd (exit_after_time \<lparr>clock = 1000, existing = {}\<rparr> (Integer 0) (Integer 0) (Integer 0)
           []))) = exit 0"
proof -
  let ?w = "\<lparr>clock = 1000, existing = {}\<rparr>"
  let ?es = "[(\<lparr>clock = 1050, existing = {}\<rparr>, ''t1''), (\<lparr>clock = 1059, existing = {}\<rparr>, ''t2''),
       (\<lparr>clock = 1061, existing = {}\<rparr>, ''t3'')]"
  have dbl: "is_double (clock ?w)"
    by (simp add: is_double_1000)
  have mono: "clock ?w \<le> clock ?w"
    by simp
  have z: "Integer 0 \<in> {Integer 0, Floating (Finite 0)}"
    by simp
  have d: "deadline_expr (Finite 1000) (Integer 0) (Integer 1) (Integer 0) = Return (Finite 1060)"
    using deadline_expr_exact [of 1000 0 1 0] by simp
  note inst = exit_after_time_deadline [of ?w "Integer 0" "Integer 1" "Integer 0"
      "[] :: string registry" ?es "Finite 1060" ?w "''t1''"]
  from inst have a1: "exit_after_time ?w (Integer 0) (Integer 1) (Integer 0) ([] :: string registry) =
       (Return (), [(''execute.task-executed1'', Check_time (Finite 1060))])"
    by (simp add: d del: fire_all.simps fire.simps)
  from inst have a2: "fire_all ''execute.task-executed1'' ?es
        [(''execute.task-executed1'', Check_time (Finite 1060))] =
       ([Return (), Return (), exit 0], [(''execute.task-executed1'', Check_time (Finite 1060))])"
    by (simp del: fire_all.simps fire.simps)
  from exit_after_time_deadline [of ?w "Integer 0" "Integer 0" "Integer 0"
      "[] :: string registry" "[]" "Finite 1060" ?w "''t1''"] dbl mono z
  have a3: "fst (fire ''execute.task-executed1'' ?w ''t1''
        (snd (exit_after_time ?w (Integer 0) (Integer 0) (Integer 0) []))) = exit 0"
    by blast
  from dbl mono z a1 a2 a3 show ?thesis by blast
qed

subsection \<open>What each factory registers\<close>




subsection \<open>The file-marker watcher\<close>

text \<open>
  C4. \<^verbatim>\<open>exit_if_file_exists(p)\<close>, for every path \<open>p\<close>: over any sequence of pre-execute
  events, the callback exits with status 0 at every event at which \<open>p\<close> exists, and at every
  event at which \<open>p\<close> does not exist it returns to the scheduler, raising nothing; the
  callback stays registered unchanged, so the check is made again at every event. A
  post-execute event does not call it.
\<close>

theorem exit_if_file_exists_check:
  "fire_all ''execute.task-pre-execute'' events (exit_if_file_exists p []) =
     (map (\<lambda>(w, t). if p \<in> existing w then exit 0 else Return ()) events,
      exit_if_file_exists p [])
   \<and> fire ''execute.task-pre-execute'' w t (exit_if_file_exists p []) =
     (if p \<in> existing w then exit 0 else Return (), exit_if_file_exists p [])
   \<and> fire ''execute.task-executed1'' w t (exit_if_file_exists p []) =
     (Return (), exit_if_file_exists p [])"
  for t :: 't and events :: "(world \<times> 't) list"
proof -
  have reg: "exit_if_file_exists p [] = [(''execute.task-pre-execute'', Check_file p)]"
    by (simp add: exit_if_file_exists_def register_hook_def)
  have seq: "fire_all ''execute.task-pre-execute'' events (exit_if_file_exists p []) =
     (map (\<lambda>(w, t). if p \<in> existing w then exit 0 else Return ()) events,
      exit_if_file_exists p [])"
    by (simp add: reg fire_all_check_file)
  have one: "fire ''execute.task-pre-execute'' w t (exit_if_file_exists p []) =
     (if p \<in> existing w then exit 0 else Return (), exit_if_file_exists p [])"
    by (simp add: reg fire_single check_file_def path_exists_def del: fire.simps)
  have other: "fire ''execute.task-executed1'' w t (exit_if_file_exists p []) =
     (Return (), exit_if_file_exists p [])"
    by (simp add: reg)
  from seq one other show ?thesis by blast
qed

theorem exit_if_file_exists_check_witness:
  "fire_all ''execute.task-pre-execute''
      [(\<lparr>clock = 10, existing = {}\<rparr>, ''t1''), (\<lparr>clock = 20, existing = {''other''}\<rparr>, ''t2''),
       (\<lparr>clock = 30, existing = {''other'', ''stop''}\<rparr>, ''t3'')]
      (exit_if_file_exists ''stop'' []) =
     ([Return (), Return (), exit 0], [(''execute.task-pre-execute'', Check_file ''stop'')])"
  using exit_if_file_exists_check [of
      "[(\<lparr>clock = 10, existing = {}\<rparr>, ''t1''), (\<lparr>clock = 20, existing = {''other''}\<rparr>, ''t2''),
        (\<lparr>clock = 30, existing = {''other'', ''stop''}\<rparr>, ''t3'')]"
      "''stop''" "\<lparr>clock = 10, existing = {}\<rparr>" "''t1''", THEN conjunct1]
  by (simp add: exit_if_file_exists_def register_hook_def del: fire_all.simps fire.simps)

subsection \<open>The predicate watcher\<close>

text \<open>What the callback of \<^verbatim>\<open>exit_when_true\<close> does, for each content of the cell \<^verbatim>\<open>f\<close>.\<close>

lemma exit_when_Supplied:
  "exit_when (Supplied g) w t =
     (case g w [t] of
        Return v \<Rightarrow> (if truthy v then exit 0 else Return (), [[t]])
      | Raise e \<Rightarrow> (Raise e, [[t]]))"
  by (simp add: exit_when_def split: result.splits)

lemma exit_when_Discard_arg:
  "exit_when Discard_arg w t = (Raise TypeError, [])"
  by (simp add: exit_when_def)

lemma exit_when_true_eq:
  "exit_when_true f function_takes_Task reg =
     reg @ [(''execute.task-executed1'',
             Exit_when (if function_takes_Task then Supplied f else Discard_arg))]"
  by (simp add: exit_when_true_def register_hook_def)

text \<open>
  With \<^verbatim>\<open>function_takes_Task\<close> true the callback calls the supplied function once, with the
  task of the event, exits with status 0 when the value returned is true, and returns to
  the scheduler when it is not.
\<close>

lemma exit_when_true_takes_task:
  "exit_when (Supplied f) w t =
     (case f w [t] of
        Return v \<Rightarrow> (if truthy v then exit 0 else Return (), [[t]])
      | Raise e \<Rightarrow> (Raise e, [[t]]))
   \<and> fst (fire ''execute.task-executed1'' w t (exit_when_true f True [])) =
       (case f w [t] of
          Return v \<Rightarrow> if truthy v then exit 0 else Return ()
        | Raise e \<Rightarrow> Raise e)"
  by (simp add: exit_when_true_eq exit_when_Supplied fire_single del: fire.simps
      split: result.splits)

text \<open>
  With \<^verbatim>\<open>function_takes_Task\<close> false, whatever the supplied function is, the callback raises
  \<open>TypeError\<close> and calls nothing.
\<close>

lemma exit_when_true_no_task:
  "fire ''execute.task-executed1'' w t (exit_when_true f False []) =
     (Raise TypeError, exit_when_true f False [])
   \<and> snd (exit_when Discard_arg w t) = []"
  by (simp add: exit_when_true_eq exit_when_Discard_arg fire_single del: fire.simps)

text \<open>
  C1, at \<^verbatim>\<open>exit_when_true(lambda: True)\<close>, so with \<^verbatim>\<open>function_takes_Task\<close> false, and a
  post-execute event for the task \<open>''t1''\<close>. The function always returns \<^verbatim>\<open>True\<close>, so the
  callback should call it with no argument and exit with status 0. The cell \<^verbatim>\<open>f\<close> holds the
  lambda \<^verbatim>\<open>lambda t : f()\<close>, whose body calls the lambda itself with no argument: the callback
  raises \<open>TypeError\<close>, the function supplied is never called, and the process does not exit.
\<close>

theorem exit_when_true_default_raises:
  "exit_when_true (\<lambda>w args. if args = [] then Return (PyBool True) else Raise TypeError) False
      ([] :: string registry) =
     [(''execute.task-executed1'', Exit_when Discard_arg)]
   \<and> exit_when Discard_arg \<lparr>clock = 10, existing = {}\<rparr> ''t1'' = (Raise TypeError, [])
   \<and> fire ''execute.task-executed1'' \<lparr>clock = 10, existing = {}\<rparr> ''t1''
       (exit_when_true (\<lambda>w args. if args = [] then Return (PyBool True) else Raise TypeError)
          False []) =
     (Raise TypeError, [(''execute.task-executed1'', Exit_when Discard_arg)])"
  by (simp add: exit_when_true_eq exit_when_Discard_arg)

text \<open>
  C8. Whatever \<^verbatim>\<open>function_takes_Task\<close> is: when a call of the registered callback calls the
  function supplied by the caller on some arguments and the function raises an exception
  there, the callback raises that same exception; it does not exit on its own, returns no
  result in its place, and its closure is unchanged. The exception reaches the dispatch of
  the event.
\<close>

theorem exit_when_propagates:
  assumes "c = (if function_takes_Task then Supplied f else Discard_arg)"
    and "args \<in> set (snd (exit_when c w t))"
    and "f w args = Raise e"
  shows "fst (exit_when c w t) = Raise e
    \<and> run_hook w (Exit_when c) t = (Raise e, Exit_when c)
    \<and> fire ''execute.task-executed1'' w t (exit_when_true f function_takes_Task []) =
        (Raise e, exit_when_true f function_takes_Task [])"
proof (cases function_takes_Task)
  case True
  with assms(1) have c: "c = Supplied f" by simp
  from assms(2) have "args = [t]"
    unfolding c by (simp add: exit_when_Supplied split: result.splits if_splits)
  with assms(3) have raised: "f w [t] = Raise e" by simp
  have res: "exit_when c w t = (Raise e, [[t]])"
    unfolding c by (simp add: exit_when_Supplied raised)
  have reg: "exit_when_true f function_takes_Task [] = [(''execute.task-executed1'', Exit_when c)]"
    using assms(1) by (simp add: exit_when_true_eq)
  show ?thesis
    by (simp add: reg res fire_single del: fire.simps)
next
  case False
  with assms(1) have "c = Discard_arg" by simp
  with assms(2) show ?thesis
    by (simp add: exit_when_Discard_arg)
qed

theorem exit_when_propagates_witness:
  "Supplied (\<lambda>w args. Raise (UserError ''boom'')) =
     (if True then Supplied (\<lambda>w args. Raise (UserError ''boom'')) else Discard_arg)
   \<and> [''t1''] \<in> set (snd (exit_when (Supplied (\<lambda>w args. Raise (UserError ''boom'')))
         \<lparr>clock = 10, existing = {}\<rparr> ''t1''))
   \<and> (\<lambda>w args. Raise (UserError ''boom'')) \<lparr>clock = 10, existing = {}\<rparr> [''t1''] =
       Raise (UserError ''boom'')
   \<and> fire ''execute.task-executed1'' \<lparr>clock = 10, existing = {}\<rparr> ''t1''
       (exit_when_true (\<lambda>w args. Raise (UserError ''boom'')) True []) =
     (Raise (UserError ''boom''),
      [(''execute.task-executed1'', Exit_when (Supplied (\<lambda>w args. Raise (UserError ''boom''))))])"
proof -
  let ?f = "\<lambda>(w::world) (args::string list). (Raise (UserError ''boom'') :: pyval result)"
  let ?w = "\<lparr>clock = 10, existing = {}\<rparr>"
  have h1: "Supplied ?f = (if True then Supplied ?f else Discard_arg)"
    by simp
  have h2: "[''t1''] \<in> set (snd (exit_when (Supplied ?f) ?w ''t1''))"
    by (simp add: exit_when_Supplied)
  have h3: "?f ?w [''t1''] = Raise (UserError ''boom'')"
    by simp
  from exit_when_propagates [OF h1 h2 h3] h2 show ?thesis
    by (simp add: exit_when_true_eq del: fire.simps)
qed

end
